theory Spec2Isabelle
  imports Main "HOL-Library.Word"
begin

section \<open>JavaScript values and string primitives\<close>

text \<open>
  The gateway is a set of Next.js API route handlers. Each handler is modelled as a pure
  function from its request, its environment and the answers of the upstream services to
  the HTTP response it produces together with the list of upstream URLs it fetched.
  Text is a list of 8-bit code points; a request body is the parsed JSON value the
  framework hands to the handler, \<open>None\<close> standing for \<open>undefined\<close>. An error the
  handler raises is a value of the model.
\<close>

datatype json =
    JNull
  | JBool bool
  | JNum int
  | JStr string
  | JArr "json list"
  | JObj "(string \<times> json) list"

text \<open>JavaScript truthiness, as used by \<open>!x\<close> and \<open>x || y\<close>; \<open>None\<close> is \<open>undefined\<close>.\<close>

fun truthy :: "json option \<Rightarrow> bool" where
  "truthy None = False"
| "truthy (Some JNull) = False"
| "truthy (Some (JBool b)) = b"
| "truthy (Some (JNum n)) = (n \<noteq> 0)"
| "truthy (Some (JStr s)) = (s \<noteq> [])"
| "truthy (Some (JArr xs)) = True"
| "truthy (Some (JObj kvs)) = True"

text \<open>
  The TypeErrors a handler can raise on its request: destructuring a body that is
  \<open>null\<close> or \<open>undefined\<close>, and converting a value to text in a template literal.
\<close>

datatype js_error = CannotDestructure | CannotConvert

text \<open>\<open>const { a, b } = v\<close> raises a TypeError exactly when \<open>v\<close> is \<open>null\<close> or \<open>undefined\<close>.\<close>

definition destructures :: "json option \<Rightarrow> bool" where
  "destructures v = (case v of None \<Rightarrow> False | Some JNull \<Rightarrow> False | Some w \<Rightarrow> True)"

text \<open>
  The property \<open>k\<close> of a value that destructures, for the keys the handlers read
  (\<open>topic\<close>, \<open>audience\<close>, \<open>query\<close>, \<open>recency\<close>): only an object has them. The keys of
  a parsed object are distinct.
\<close>

definition property :: "json option \<Rightarrow> string \<Rightarrow> json option" where
  "property v k = (case v of Some (JObj kvs) \<Rightarrow> map_of kvs k | _ \<Rightarrow> None)"

text \<open>
  \<open>`${v}`\<close> raises a TypeError when \<open>v\<close> is an object with an own property
  \<open>toString\<close> (no JSON value is callable, and \<open>Object.prototype.valueOf\<close> gives back
  the object), or an array with such an element: \<open>Array.prototype.toString\<close> joins the
  texts of the elements.
\<close>

fun text_throws :: "json \<Rightarrow> bool" where
  "text_throws (JObj kvs) = (map_of kvs ''toString'' \<noteq> None)"
| "text_throws (JArr xs) = list_ex text_throws xs"
| "text_throws v = False"

definition template_throws :: "json option \<Rightarrow> bool" where
  "template_throws v = (case v of None \<Rightarrow> False | Some w \<Rightarrow> text_throws w)"

definition nl :: char where
  "nl = CHR 0x0A"

definition dq :: char where
  "dq = CHR 0x22"

definition bs :: char where
  "bs = CHR 0x5C"

text \<open>\<open>s.split(d)\<close> for a one-character separator: never empty, \<open>''.split(d) = ['']\<close>.\<close>

fun cons_hd :: "char \<Rightarrow> string list \<Rightarrow> string list" where
  "cons_hd c [] = [[c]]"
| "cons_hd c (p # ps) = (c # p) # ps"

fun split_char :: "char \<Rightarrow> string \<Rightarrow> string list" where
  "split_char d [] = [[]]"
| "split_char d (c # cs) =
     (if c = d then [] # split_char d cs else cons_hd c (split_char d cs))"

text \<open>\<open>s.split('\n\n')\<close>: the separator is matched leftmost first, without overlap.\<close>

fun split_blank :: "string \<Rightarrow> string list" where
  "split_blank [] = [[]]"
| "split_blank [c] = [[c]]"
| "split_blank (a # b # cs) =
     (if a = nl \<and> b = nl then [] # split_blank cs else cons_hd a (split_blank (b # cs)))"

text \<open>The characters \<open>trim()\<close> removes, among the 8-bit code points.\<close>

definition js_space :: "char \<Rightarrow> bool" where
  "js_space c = (c \<in> {CHR 0x09, CHR 0x0A, CHR 0x0B, CHR 0x0C, CHR 0x0D, CHR 0x20, CHR 0xA0})"

definition trim_empty :: "string \<Rightarrow> bool" where
  "trim_empty s = list_all js_space s"

definition startsWith :: "string \<Rightarrow> string \<Rightarrow> bool" where
  "startsWith s p = (take (length p) s = p)"

text \<open>Decimal rendering of a non-negative integer, as a template literal prints it.\<close>

fun dec :: "nat \<Rightarrow> string" where
  "dec n = (if n < 10 then [char_of (48 + n)] else dec (n div 10) @ [char_of (48 + n mod 10)])"

declare dec.simps [simp del]

definition hex_digit :: "nat \<Rightarrow> char" where
  "hex_digit n = (if n < 10 then char_of (48 + n) else char_of (87 + n))"

definition HEX_digit :: "nat \<Rightarrow> char" where
  "HEX_digit n = (if n < 10 then char_of (48 + n) else char_of (55 + n))"

text \<open>\<open>JSON.stringify\<close> of a string: quoted, with the JSON escapes.\<close>

definition json_escape :: "char \<Rightarrow> string" where
  "json_escape c =
     (if c = dq then [bs, dq]
      else if c = bs then [bs, bs]
      else if c = CHR 0x08 then [bs, CHR ''b'']
      else if c = CHR 0x0C then [bs, CHR ''f'']
      else if c = CHR 0x0A then [bs, CHR ''n'']
      else if c = CHR 0x0D then [bs, CHR ''r'']
      else if c = CHR 0x09 then [bs, CHR ''t'']
      else if (of_char c :: nat) < 32
        then [bs, CHR ''u'', CHR ''0'', CHR ''0'',
              hex_digit (of_char c div 16), hex_digit (of_char c mod 16)]
      else [c])"

definition json_quote :: "string \<Rightarrow> string" where
  "json_quote s = [dq] @ concat (map json_escape s) @ [dq]"

text \<open>\<open>response.ok\<close>: the status is in the range 200 to 299.\<close>

definition ok :: "nat \<Rightarrow> bool" where
  "ok st = (200 \<le> st \<and> st \<le> 299)"

text \<open>\<open>process.env.X || fallback\<close>: an unset or empty variable gives the fallback.\<close>

definition env_or :: "string option \<Rightarrow> string \<Rightarrow> string" where
  "env_or v d = (case v of None \<Rightarrow> d | Some s \<Rightarrow> if s = [] then d else s)"

section \<open>The HTTP response a handler builds\<close>

text \<open>
  \<open>status\<close> starts at 200 and changes only through \<open>res.status(n)\<close>; \<open>headers\<close> is
  what \<open>res.setHeader\<close> has set; \<open>writes\<close> are the \<open>res.write\<close> calls in order;
  \<open>body\<close> is what \<open>res.json\<close>, \<open>res.send\<close> or \<open>res.end\<close> sent last.
\<close>

datatype reply_body = NoBody | JsonBody json | RawBody "8 word list"

record response =
  status :: nat
  headers :: "string \<rightharpoonup> string"
  writes :: "string list"
  body :: reply_body
  ended :: bool

definition res0 :: response where
  "res0 = \<lparr>status = 200, headers = Map.empty, writes = [], body = NoBody, ended = False\<rparr>"

definition setHeader :: "string \<Rightarrow> string \<Rightarrow> response \<Rightarrow> response" where
  "setHeader k v r = r\<lparr>headers := (headers r)(k \<mapsto> v)\<rparr>"

definition set_status :: "nat \<Rightarrow> response \<Rightarrow> response" where
  "set_status n r = r\<lparr>status := n\<rparr>"

text \<open>\<open>res.json(v)\<close> declares the JSON content type, sends the value and ends.\<close>

definition send_json :: "json \<Rightarrow> response \<Rightarrow> response" where
  "send_json v r =
     (setHeader ''Content-Type'' ''application/json; charset=utf-8'' r)
       \<lparr>body := JsonBody v, ended := True\<rparr>"

definition send_raw :: "8 word list \<Rightarrow> response \<Rightarrow> response" where
  "send_raw bytes r = r\<lparr>body := RawBody bytes, ended := True\<rparr>"

definition res_write :: "string \<Rightarrow> response \<Rightarrow> response" where
  "res_write s r = r\<lparr>writes := writes r @ [s]\<rparr>"

definition end_response :: "response \<Rightarrow> response" where
  "end_response r = r\<lparr>ended := True\<rparr>"

section \<open>The streaming relay (\<open>pages/api/generate-content-stream.js\<close>)\<close>

record request =
  req_method :: string

text \<open>
  A request with a parsed JSON body: \<open>req.body\<close> is any JSON value, or \<open>undefined\<close>
  (\<open>None\<close>).
\<close>

record json_request = request +
  req_body :: "json option"

definition topic :: "json_request \<Rightarrow> json option" where
  "topic req = property (req_body req) ''topic''"

definition audience :: "json_request \<Rightarrow> json option" where
  "audience req = property (req_body req) ''audience''"

text \<open>
  What \<open>reader.read()\<close> does after the last chunk: it reports \<open>done\<close>, or it rejects.
  What \<open>fetch\<close> does: it rejects, or it resolves to a reply with a status, a flag telling
  whether \<open>response.text()\<close> rejects, and a body (none when \<open>response.body\<close> is null,
  where \<open>getReader\<close> raises a TypeError).
\<close>

datatype read_end = Done | ReadFails

datatype stream_fetch =
    ConnectFails
  | Reply nat bool "(string list \<times> read_end) option"

definition sse_json_error :: "string \<Rightarrow> string" where
  \<open>sse_json_error msg = ''data: {"error":'' @ json_quote msg @ ''}'' @ [nl, nl]\<close>

definition sse_finished :: string where
  \<open>sse_finished = ''data: {"finished":true}'' @ [nl, nl]\<close>

text \<open>The body of the read loop for one chunk: the frames written to the client.\<close>

definition sse_data :: "string \<Rightarrow> string" where
  "sse_data d = ''data: '' @ d @ [nl, nl]"

definition forward_chunk :: "string \<Rightarrow> string list" where
  "forward_chunk chunk =
     map (\<lambda>line. sse_data (drop 6 line))
       (filter (\<lambda>line. startsWith line ''data: '')
         (filter (\<lambda>line. \<not> trim_empty line) (split_char nl chunk)))"

fun relay_loop :: "string list \<Rightarrow> read_end \<Rightarrow> string list" where
  "relay_loop [] Done = [sse_finished]"
| "relay_loop [] ReadFails = [sse_json_error ''Stream processing error'']"
| "relay_loop (chunk # rest) e = forward_chunk chunk @ relay_loop rest e"

definition stream_url :: "string option \<Rightarrow> string" where
  "stream_url env = env_or env ''http://backend:8000'' @ ''/api/content/generate/stream''"

text \<open>A run of \<open>res.write\<close> calls followed by \<open>res.end()\<close>.\<close>

definition finish_with :: "string list \<Rightarrow> response \<Rightarrow> response" where
  "finish_with ws r = end_response (fold res_write ws r)"

text \<open>The reply once the upstream fetch has been issued, written on \<open>res\<close>.\<close>

definition relay_reply :: "stream_fetch \<Rightarrow> response \<Rightarrow> response" where
  "relay_reply up res =
     (case up of
        ConnectFails \<Rightarrow> finish_with [sse_json_error ''Failed to connect to backend''] res
      | Reply st text_rejects b \<Rightarrow>
          if \<not> ok st
          then (if text_rejects
                then finish_with [sse_json_error ''Failed to connect to backend''] res
                else finish_with [sse_json_error (''API error: '' @ dec st)] res)
          else (case b of
                  None \<Rightarrow> finish_with [sse_json_error ''Failed to connect to backend''] res
                | Some (chunks, e) \<Rightarrow> finish_with (relay_loop chunks e) res))"

text \<open>The response after the three \<open>setHeader\<close> calls that open the event stream.\<close>

definition sse_res :: response where
  "sse_res =
     setHeader ''Connection'' ''keep-alive''
       (setHeader ''Cache-Control'' ''no-cache''
         (setHeader ''Content-Type'' ''text/event-stream'' res0))"

text \<open>
  The handler gives the response as it leaves it, the URLs it fetched, and the error it
  raised out of itself, if any. The destructuring of \<open>req.body\<close> stands before the
  \<open>try\<close>: its TypeError leaves the handler, with the headers set, nothing written and
  the response not ended (the framework then answers for the handler, with status 500).
  The log line at the head of the \<open>try\<close> converts \<open>topic\<close> and \<open>audience\<close> to text: a
  TypeError there reaches the outer \<open>catch\<close>, before any fetch.
\<close>

definition stream_handler ::
  "string option \<Rightarrow> json_request \<Rightarrow> stream_fetch
     \<Rightarrow> response \<times> string list \<times> js_error option" where
  "stream_handler env req up =
     (if req_method req \<noteq> ''POST''
      then (send_json (JObj [(''error'', JStr ''Method not allowed'')]) (set_status 405 res0),
            [], None)
      else if \<not> destructures (req_body req)
      then (sse_res, [], Some CannotDestructure)
      else if \<not> truthy (topic req) \<or> \<not> truthy (audience req)
      then (finish_with [sse_json_error ''Missing required fields''] sse_res, [], None)
      else if template_throws (topic req) \<or> template_throws (audience req)
      then (finish_with [sse_json_error ''Failed to connect to backend''] sse_res, [], None)
      else (relay_reply up sse_res, [stream_url env], None))"

section \<open>The search resolver (\<open>pages/api/perplexity-search.js\<close>)\<close>

definition query :: "json_request \<Rightarrow> json option" where
  "query req = property (req_body req) ''query''"

text \<open>\<open>recency = 'month'\<close> in the destructuring: the default stands in for \<open>undefined\<close>.\<close>

definition recency :: "json_request \<Rightarrow> json option" where
  "recency req =
     (case property (req_body req) ''recency'' of
        None \<Rightarrow> Some (JStr ''month'')
      | Some v \<Rightarrow> Some v)"

text \<open>
  One \<open>fetch\<close> of the resolver: it rejects with a message (transport error, timeout), or
  it resolves to a status and to what \<open>response.json()\<close> gives, the parsed payload or
  the message of the error it throws. The network is a function of the URL fetched.
\<close>

datatype search_fetch = Rejects string | Responds nat "string + json"

datatype resolution = Found json | Exhausted "string option"

definition urlsToTry :: "string option \<Rightarrow> string list" where
  "urlsToTry mcpUrlFromEnv =
     (case mcpUrlFromEnv of None \<Rightarrow> [] | Some u \<Rightarrow> if u = [] then [] else [u])
       @ [''http://shopai-perplexity:3500'', ''http://perplexity:3500'', ''http://localhost:3500'']"

text \<open>
  The inner \<open>try\<close> around the tool endpoint: the payload when the status is ok and the
  body parses; every other outcome is logged and falls through to the prompt endpoint.
\<close>

definition tool_attempt :: "search_fetch \<Rightarrow> json option" where
  "tool_attempt r =
     (case r of
        Rejects msg \<Rightarrow> None
      | Responds st b \<Rightarrow>
          if ok st then (case b of Inl msg \<Rightarrow> None | Inr data \<Rightarrow> Some data) else None)"

text \<open>
  The prompt endpoint: the payload, or the message of the error that reaches
  \<open>catch (urlError)\<close>.
\<close>

definition prompt_attempt :: "search_fetch \<Rightarrow> string + json" where
  "prompt_attempt r =
     (case r of
        Rejects msg \<Rightarrow> Inl msg
      | Responds st b \<Rightarrow>
          if ok st then b else Inl (''Prompt endpoint responded with status: '' @ dec st))"

text \<open>
  The loop over \<open>urlsToTry\<close>, with \<open>lastError\<close> as an accumulator; the second
  component lists the URLs fetched, in order.
\<close>

fun try_urls ::
  "(string \<Rightarrow> search_fetch) \<Rightarrow> string list \<Rightarrow> string option \<Rightarrow> resolution \<times> string list" where
  "try_urls net [] lastError = (Exhausted lastError, [])"
| "try_urls net (mcpUrl # rest) lastError =
     (case tool_attempt (net (mcpUrl @ ''/api/tool'')) of
        Some data \<Rightarrow> (Found data, [mcpUrl @ ''/api/tool''])
      | None \<Rightarrow>
          (case prompt_attempt (net (mcpUrl @ ''/api/prompt'')) of
             Inr data \<Rightarrow> (Found data, [mcpUrl @ ''/api/tool'', mcpUrl @ ''/api/prompt''])
           | Inl msg \<Rightarrow>
               (case try_urls net rest (Some msg) of
                  (r, fetched) \<Rightarrow>
                    (r, (mcpUrl @ ''/api/tool'') # (mcpUrl @ ''/api/prompt'') # fetched))))"

definition troubleshooting :: "string option \<Rightarrow> string \<Rightarrow> string" where
  \<open>troubleshooting mcpUrlFromEnv message =
     ''# Connection Error'' @ [nl] @
     [nl] @
     ''Unable to get search results for your query. Error: '' @ message @ [nl] @
     [nl] @
     ''## Troubleshooting Steps:'' @ [nl] @
     [nl] @
     ''1. Make sure the Perplexity server is running'' @ [nl] @
     ''   - Check if container is running with `docker ps`'' @ [nl] @
     ''   - If not, restart it with `docker-compose up -d perplexity`'' @ [nl] @
     [nl] @
     ''2. Check Docker network connectivity'' @ [nl] @
     ''   - Tried these URLs: '' @
       (case mcpUrlFromEnv of
          None \<Rightarrow> ''["None configured"]''
        | Some u \<Rightarrow> if u = [] then ''["None configured"]'' else json_quote u) @ [nl] @
     ''   - Try restarting all containers: `docker-compose down && docker-compose up -d`'' @ [nl] @
     [nl] @
     ''3. Check container names'' @ [nl] @
     ''   - Run `docker ps` to verify the actual container names'' @ [nl] @
     ''   - Update docker-compose.yml if container names don't match URLs''\<close>

text \<open>The outer \<open>catch (err)\<close>: the reply built from \<open>err.message\<close>.\<close>

definition failure_reply :: "string option \<Rightarrow> string \<Rightarrow> response" where
  "failure_reply mcpUrlFromEnv message =
     send_json
       (JObj [(''error'', JStr (''Failed to search with Perplexity: '' @ message)),
              (''mock'', JBool True),
              (''answer'', JStr (troubleshooting mcpUrlFromEnv message))])
       (set_status 500 res0)"

definition exhausted_message :: "string option \<Rightarrow> string" where
  "exhausted_message lastError =
     ''All connection attempts failed. Last error: ''
       @ (case lastError of None \<Rightarrow> ''undefined'' | Some m \<Rightarrow> m)"

text \<open>
  The whole handler runs inside the outer \<open>try\<close>: a TypeError of the destructuring, or
  of the log line that converts \<open>query\<close> and \<open>recency\<close> to text, reaches the outer
  \<open>catch\<close> like the exhaustion of the candidates. The text of a TypeError is the
  engine's: \<open>message_of\<close> is a parameter.
\<close>

definition search_handler ::
  "(js_error \<Rightarrow> string) \<Rightarrow> string option \<Rightarrow> json_request \<Rightarrow> (string \<Rightarrow> search_fetch)
     \<Rightarrow> response \<times> string list" where
  "search_handler message_of mcpUrlFromEnv req net =
     (if req_method req \<noteq> ''POST''
      then (send_json (JObj [(''error'', JStr ''Method not allowed'')]) (set_status 405 res0), [])
      else if \<not> destructures (req_body req)
      then (failure_reply mcpUrlFromEnv (message_of CannotDestructure), [])
      else if \<not> truthy (query req)
      then (send_json (JObj [(''error'', JStr ''Missing search query'')]) (set_status 400 res0), [])
      else if template_throws (query req) \<or> template_throws (recency req)
      then (failure_reply mcpUrlFromEnv (message_of CannotConvert), [])
      else
        (case try_urls net (urlsToTry mcpUrlFromEnv) None of
           (Found data, fetched) \<Rightarrow> (send_json data (set_status 200 res0), fetched)
         | (Exhausted lastError, fetched) \<Rightarrow>
             (failure_reply mcpUrlFromEnv (exhausted_message lastError), fetched)))"

section \<open>The asset proxy (\<open>pages/api/proxy-image.js\<close>)\<close>

record image_request = request +
  imagePath :: "string option"

text \<open>
  The upstream fetch: it rejects with a message, or it resolves to a status, a status
  text, the \<open>content-type\<close> header if there is one, and what \<open>arrayBuffer()\<close> gives,
  the bytes or the message of the error it throws.
\<close>

datatype image_fetch =
    ImageRejects string
  | ImageResponds nat string "string option" "string + 8 word list"

definition cleanImagePath :: "string \<Rightarrow> string" where
  "cleanImagePath p = (case split_char (CHR ''?'') p of [] \<Rightarrow> [] | x # _ \<Rightarrow> x)"

text \<open>The URL fetched; \<open>now\<close> is the reading of \<open>Date.now()\<close>, in milliseconds.\<close>

definition cacheBustedUrl :: "string option \<Rightarrow> string \<Rightarrow> nat \<Rightarrow> string" where
  "cacheBustedUrl env p now =
     env_or env ''http://backend:8000'' @ cleanImagePath p @ ''?t='' @ dec now"

definition content_type_or_png :: "string option \<Rightarrow> string" where
  "content_type_or_png contentType = env_or contentType ''image/png''"

definition proxy_error :: "string \<Rightarrow> string \<Rightarrow> response \<Rightarrow> response" where
  "proxy_error message p r =
     send_json
       (JObj [(''error'', JStr (''Failed to proxy image: '' @ message)),
              (''imagePath'', JStr (cleanImagePath p))])
       (set_status 500 r)"

text \<open>The reply once the upstream fetch has been issued.\<close>

definition proxy_reply :: "string \<Rightarrow> string \<Rightarrow> image_fetch \<Rightarrow> response" where
  "proxy_reply m p up =
     (case up of
        ImageRejects message \<Rightarrow> proxy_error message p res0
      | ImageResponds st statusText contentType buffer \<Rightarrow>
          if \<not> ok st
          then send_json
                 (JObj [(''error'',
                         JStr (''Failed to fetch image: '' @ dec st @ '' '' @ statusText))])
                 (set_status st res0)
          else if m = ''HEAD''
          then end_response
                 (set_status 200
                   (setHeader ''Content-Type'' (content_type_or_png contentType) res0))
          else
            (let res = setHeader ''Expires'' ''0''
                        (setHeader ''Pragma'' ''no-cache''
                          (setHeader ''Cache-Control'' ''no-cache, no-store, must-revalidate''
                            (setHeader ''Content-Type'' (content_type_or_png contentType)
                               res0)))
             in case buffer of
                  Inl message \<Rightarrow> proxy_error message p res
                | Inr imageData \<Rightarrow>
                    if length imageData < 100
                    then send_json (JObj [(''error'', JStr ''Invalid image data received'')])
                           (set_status 500 res)
                    else send_raw imageData (set_status 200 res)))"

definition proxy_handler ::
  "string option \<Rightarrow> nat \<Rightarrow> image_request \<Rightarrow> image_fetch \<Rightarrow> response \<times> string list" where
  "proxy_handler env now req up =
     (if req_method req \<noteq> ''GET'' \<and> req_method req \<noteq> ''HEAD''
      then (send_json (JObj [(''error'', JStr ''Method not allowed'')]) (set_status 405 res0), [])
      else
        (case imagePath req of
           None \<Rightarrow>
             (send_json (JObj [(''error'', JStr ''Missing imagePath parameter'')])
                (set_status 400 res0), [])
         | Some p \<Rightarrow>
             if p = []
             then (send_json (JObj [(''error'', JStr ''Missing imagePath parameter'')])
                     (set_status 400 res0), [])
             else (proxy_reply (req_method req) p up, [cacheBustedUrl env p now])))"

subsection \<open>The reference handed to the caller (the image generation route)\<close>

text \<open>
  The image generation route answers with a reference to the proxy:
  \<^verbatim>\<open>
  const cacheBuster = `?t=${Date.now()}&r=${Math.random().toString(36).substring(7)}`;
  const proxyUrl = `/api/proxy-image?imagePath=${encodeURIComponent(data.image_url)}${cacheBuster}`;
  \<close>
  \<open>now\<close> is the clock reading and \<open>r\<close> the text derived from the random number.
\<close>

definition uri_unreserved :: "char \<Rightarrow> bool" where
  \<open>uri_unreserved c =
     (c \<in> set ''ABCDEFGHIJKLMNOPQRSTUVWXYZabcdefghijklmnopqrstuvwxyz0123456789-_.!~*'()'')\<close>

definition pct :: "nat \<Rightarrow> string" where
  "pct n = [CHR ''%'', HEX_digit (n div 16), HEX_digit (n mod 16)]"

definition encode_char :: "char \<Rightarrow> string" where
  "encode_char c =
     (if uri_unreserved c then [c]
      else if (of_char c :: nat) < 128 then pct (of_char c)
      else pct (192 + of_char c div 64) @ pct (128 + of_char c mod 64))"

definition encodeURIComponent :: "string \<Rightarrow> string" where
  "encodeURIComponent s = concat (map encode_char s)"

definition cacheBuster :: "nat \<Rightarrow> string \<Rightarrow> string" where
  "cacheBuster now r = ''?t='' @ dec now @ ''&r='' @ r"

definition proxyUrl :: "string \<Rightarrow> nat \<Rightarrow> string \<Rightarrow> string" where
  "proxyUrl image_url now r =
     ''/api/proxy-image?imagePath='' @ encodeURIComponent image_url @ cacheBuster now r"

section \<open>The client's decoder (\<open>handleSubmit\<close> of the streaming page)\<close>

text \<open>
  The page reads the relay's reply with a buffer that carries an incomplete message
  over to the next chunk. \<open>JSON.parse\<close> is a parameter: \<open>None\<close> when it throws.
  \<open>content\<close> lists the values appended by \<open>setContent(prev => prev + data.chunk)\<close>.
\<close>

record client_state =
  content :: "json option list"
  imagePrompts :: "json option"
  error :: "json option"
  streaming :: bool
  loading :: bool

definition client0 :: client_state where
  "client0 = \<lparr>content = [], imagePrompts = Some (JArr []), error = None,
               streaming = True, loading = True\<rparr>"

text \<open>Property access \<open>data.k\<close> on a parsed value other than \<open>null\<close>.\<close>

fun field :: "json \<Rightarrow> string \<Rightarrow> json option" where
  "field (JObj kvs) k = map_of kvs k"
| "field v k = None"

text \<open>One message of the buffer; the flag tells that the handler returned.\<close>

definition handle_message ::
  "(string \<Rightarrow> json option) \<Rightarrow> string \<Rightarrow> client_state \<Rightarrow> client_state \<times> bool" where
  "handle_message parse message st =
     (if startsWith message ''data: '' then
        (case parse (drop 6 message) of
           None \<Rightarrow> (st, False)
         | Some JNull \<Rightarrow> (st, False)
         | Some data \<Rightarrow>
             if truthy (field data ''error'')
             then (st\<lparr>error := field data ''error'', streaming := False, loading := False\<rparr>, True)
             else if truthy (field data ''finished'')
             then ((if truthy (field data ''image_prompts'')
                    then st\<lparr>imagePrompts := field data ''image_prompts''\<rparr> else st)
                     \<lparr>streaming := False, loading := False\<rparr>, False)
             else (st\<lparr>content := content st @ [field data ''chunk'']\<rparr>, False))
      else (st, False))"

fun handle_messages ::
  "(string \<Rightarrow> json option) \<Rightarrow> string list \<Rightarrow> client_state \<Rightarrow> client_state \<times> bool" where
  "handle_messages parse [] st = (st, False)"
| "handle_messages parse (m # ms) st =
     (case handle_message parse m st of
        (st', True) \<Rightarrow> (st', True)
      | (st', False) \<Rightarrow> handle_messages parse ms st')"

text \<open>The read loop: \<open>buffer += chunk\<close>, split, keep the last piece, handle the others.\<close>

fun client_loop ::
  "(string \<Rightarrow> json option) \<Rightarrow> string list \<Rightarrow> string \<Rightarrow> client_state \<Rightarrow> client_state" where
  "client_loop parse [] buffer st = st"
| "client_loop parse (chunk # rest) buffer st =
     (let messages = split_blank (buffer @ chunk) in
      case handle_messages parse (butlast messages) st of
        (st', True) \<Rightarrow> st'
      | (st', False) \<Rightarrow> client_loop parse rest (last messages) st')"

definition read_stream :: "(string \<Rightarrow> json option) \<Rightarrow> string list \<Rightarrow> client_state" where
  "read_stream parse chunks = client_loop parse chunks [] client0"

section \<open>Vocabulary of the properties\<close>

text \<open>
  The candidate (address, variant) pairs of a list of base addresses, as the URLs the
  resolver fetches for them, in the order of the loop.
\<close>

definition endpoints :: "string \<Rightarrow> string list" where
  "endpoints mcpUrl = [mcpUrl @ ''/api/tool'', mcpUrl @ ''/api/prompt'']"

definition candidates :: "string list \<Rightarrow> string list" where
  "candidates urls = concat (map endpoints urls)"

text \<open>
  Success of an attempt as the specification words it, by the response status alone.
\<close>

definition status_ok :: "search_fetch \<Rightarrow> bool" where
  "status_ok r = (case r of Rejects msg \<Rightarrow> False | Responds st b \<Rightarrow> ok st)"

text \<open>
  Success of an attempt as the resolver takes it: the status is ok and the body parses
  as JSON.
\<close>

definition succeeds :: "search_fetch \<Rightarrow> bool" where
  "succeeds r =
     (case r of
        Rejects msg \<Rightarrow> False
      | Responds st b \<Rightarrow> ok st \<and> (case b of Inl msg \<Rightarrow> False | Inr data \<Rightarrow> True))"

definition all_fail :: "(string \<Rightarrow> search_fetch) \<Rightarrow> string list \<Rightarrow> bool" where
  "all_fail net urls = list_all (\<lambda>u. \<not> succeeds (net u)) (candidates urls)"

text \<open>Two networks for the examples: one refuses every connection, one serves a single URL.\<close>

definition refusing_net :: "string \<Rightarrow> search_fetch" where
  "refusing_net u = Rejects (''connect ECONNREFUSED '' @ u)"

definition only_net :: "string \<Rightarrow> json \<Rightarrow> string \<Rightarrow> search_fetch" where
  "only_net good data u = (if u = good then Responds 200 (Inr data) else Responds 503 (Inl ''no body''))"

text \<open>
  For the examples: a network where every URL answers 200 and a single one sends a body
  that parses, and a wording of the engine's TypeErrors.
\<close>

definition unparsable_net :: "string \<Rightarrow> json \<Rightarrow> string \<Rightarrow> search_fetch" where
  "unparsable_net good data u =
     (if u = good then Responds 200 (Inr data)
      else Responds 200 (Inl ''Unexpected end of JSON input''))"

definition engine_words :: "js_error \<Rightarrow> string" where
  "engine_words e =
     (case e of
        CannotDestructure \<Rightarrow> ''Cannot destructure the request body''
      | CannotConvert \<Rightarrow> ''Cannot convert object to primitive value'')"

text \<open>A text that \<open>JSON.stringify\<close> quotes without any escape.\<close>

definition plain_text :: "string \<Rightarrow> bool" where
  "plain_text m = list_all (\<lambda>c. c \<noteq> dq \<and> c \<noteq> bs \<and> 32 \<le> (of_char c :: nat)) m"

text \<open>The failure descriptions a resolution carries to the caller.\<close>

definition failure_entries :: "resolution \<Rightarrow> string list" where
  "failure_entries r =
     (case r of
        Found data \<Rightarrow> []
      | Exhausted lastError \<Rightarrow> (case lastError of None \<Rightarrow> [] | Some m \<Rightarrow> [m]))"

section \<open>Properties of the streaming relay\<close>

subsection \<open>Shape of the reply\<close>

lemma fold_res_write:
  "writes (fold res_write ws r) = writes r @ ws"
  "status (fold res_write ws r) = status r"
  "headers (fold res_write ws r) = headers r"
  "body (fold res_write ws r) = body r"
  by (induction ws arbitrary: r) (simp_all add: res_write_def)

lemma finish_with_simps:
  "writes (finish_with ws r) = writes r @ ws"
  "status (finish_with ws r) = status r"
  "headers (finish_with ws r) = headers r"
  "body (finish_with ws r) = body r"
  "ended (finish_with ws r)"
  by (simp_all add: finish_with_def end_response_def fold_res_write)

lemma relay_loop_writes:
  "relay_loop chunks e =
     concat (map forward_chunk chunks)
       @ [case e of Done \<Rightarrow> sse_finished | ReadFails \<Rightarrow> sse_json_error ''Stream processing error'']"
  by (induction chunks) (cases e; simp)+

lemma sse_res_shape:
  "status sse_res = 200" 
  "headers sse_res ''Content-Type'' = Some ''text/event-stream''"
  "body sse_res = NoBody" 
  "writes sse_res = []"
  by (simp_all add: sse_res_def setHeader_def res0_def)

lemma relay_reply_shape:
  "status (relay_reply up r) = status r"
  "headers (relay_reply up r) = headers r"
  "body (relay_reply up r) = body r"
  "ended (relay_reply up r)"
  by (auto simp: relay_reply_def finish_with_simps split: stream_fetch.splits option.splits prod.splits)

lemma sse_res_open: "\<not> ended sse_res"
  by (simp add: sse_res_def setHeader_def res0_def)

lemmas request_defs =
  topic_def audience_def query_def recency_def property_def destructures_def
  template_throws_def

subsection \<open>The text of an error frame\<close>

text \<open>
  A message without quotes, backslashes or control characters is quoted as it is, so
  that its frame reads \<open>data: {"error":"message"}\<close> followed by a blank line.
\<close>

lemma json_escape_plain:
  assumes "c \<noteq> dq" and "c \<noteq> bs" and "32 \<le> (of_char c :: nat)"
  shows "json_escape c = [c]"
proof -
  have "c \<noteq> CHR 0x08" "c \<noteq> CHR 0x0C" "c \<noteq> CHR 0x0A" "c \<noteq> CHR 0x0D" "c \<noteq> CHR 0x09"
    using assms(3) by auto
  with assms show ?thesis
    by (simp add: json_escape_def)
qed

lemma json_quote_plain:
  assumes "plain_text m"
  shows "json_quote m = dq # m @ [dq]"
proof -
  from assms have "concat (map json_escape m) = m"
    by (induction m) (simp_all add: plain_text_def json_escape_plain)
  then show ?thesis
    by (simp add: json_quote_def)
qed

lemma sse_json_error_plain:
  assumes "plain_text m"
  shows \<open>sse_json_error m = ''data: {"error":"'' @ m @ ''"}'' @ [nl, nl]\<close>
  using json_quote_plain [OF assms] by (simp add: sse_json_error_def dq_def)

lemma digit_plain:
  assumes "d < (10::nat)"
  shows "plain_text [char_of (48 + d)]"
proof -
  have v: "(of_char (char_of (48 + d) :: char) :: nat) = 48 + d"
    using assms by (simp add: of_char_of)
  have q: "(of_char dq :: nat) = 34" and b: "(of_char bs :: nat) = 92"
    by (simp_all add: dq_def bs_def)
  have "char_of (48 + d) \<noteq> dq"
  proof
    assume "char_of (48 + d) = dq"
    with v q have "48 + d = 34" by simp
    then show False by simp
  qed
  moreover have "char_of (48 + d) \<noteq> bs"
  proof
    assume "char_of (48 + d) = bs"
    with v b have "48 + d = 92" by simp
    with assms show False by simp
  qed
  ultimately show ?thesis
    using v by (simp add: plain_text_def)
qed

lemma plain_text_append: "plain_text (a @ b) \<longleftrightarrow> plain_text a \<and> plain_text b"
  by (simp add: plain_text_def)

lemma dec_plain: "plain_text (dec n)"
proof (induction n rule: dec.induct)
  case (1 n)
  show ?case
  proof (cases "n < 10")
    case True
    then show ?thesis
      using digit_plain [of n] by (subst dec.simps) simp
  next
    case False
    with "1.IH" show ?thesis
      using digit_plain [of "n mod 10"] by (subst dec.simps) (simp add: plain_text_append)
  qed
qed

lemma plain_messages:
  "plain_text ''Missing required fields''"
  "plain_text ''Failed to connect to backend''"
  "plain_text ''Stream processing error''"
  "plain_text (''API error: '' @ dec st)"
proof -
  have "plain_text ''API error: ''"
    by code_simp
  then show "plain_text (''API error: '' @ dec st)"
    unfolding plain_text_append using dec_plain [of st] by (rule conjI)
qed code_simp+

lemma error_frame_last:
  assumes "writes r = ws @ [sse_json_error m]" and "plain_text m"
  shows \<open>writes r \<noteq> [] \<and> (\<exists>m. last (writes r) = ''data: {"error":"'' @ m @ ''"}'' @ [nl, nl])\<close>
proof (intro conjI exI [where x = m])
  show "writes r \<noteq> []"
    unfolding assms(1) by simp
  show \<open>last (writes r) = ''data: {"error":"'' @ m @ ''"}'' @ [nl, nl]\<close>
    unfolding assms(1) sse_json_error_plain [OF assms(2)] by simp
qed

subsection \<open>Failures are delivered in band\<close>

lemma relay_reply_failure:
  assumes "up = ConnectFails \<or> (\<exists>st tr b. up = Reply st tr b
                \<and> (\<not> ok st \<or> b = None \<or> (\<exists>cs. b = Some (cs, ReadFails))))"
  shows \<open>writes (relay_reply up sse_res) \<noteq> []
       \<and> (\<exists>m. last (writes (relay_reply up sse_res))
                 = ''data: {"error":"'' @ m @ ''"}'' @ [nl, nl])\<close>
proof (cases up)
  case ConnectFails
  then have "writes (relay_reply up sse_res) = [] @ [sse_json_error ''Failed to connect to backend'']"
    by (simp add: relay_reply_def finish_with_simps sse_res_shape)
  then show ?thesis
    using plain_messages(2) by (rule error_frame_last)
next
  case (Reply st tr b)
  show ?thesis
  proof (cases "ok st")
    case False
    show ?thesis
    proof (cases tr)
      case True
      with Reply False
      have "writes (relay_reply up sse_res) = [] @ [sse_json_error ''Failed to connect to backend'']"
        by (simp add: relay_reply_def finish_with_simps sse_res_shape)
      then show ?thesis
        using plain_messages(2) by (rule error_frame_last)
    next
      case nt: False
      with Reply False
      have "writes (relay_reply up sse_res) = [] @ [sse_json_error (''API error: '' @ dec st)]"
        by (simp add: relay_reply_def finish_with_simps sse_res_shape)
      then show ?thesis
        using plain_messages(4) by (rule error_frame_last)
    qed
  next
    case True
    with Reply assms consider "b = None" | cs where "b = Some (cs, ReadFails)"
      by auto
    then show ?thesis
    proof cases
      case 1
      with Reply True
      have "writes (relay_reply up sse_res) = [] @ [sse_json_error ''Failed to connect to backend'']"
        by (simp add: relay_reply_def finish_with_simps sse_res_shape)
      then show ?thesis
        using plain_messages(2) by (rule error_frame_last)
    next
      case 2
      with Reply True
      have "writes (relay_reply up sse_res)
          = concat (map forward_chunk cs) @ [sse_json_error ''Stream processing error'']"
        by (simp add: relay_reply_def finish_with_simps sse_res_shape relay_loop_writes)
      then show ?thesis
        using plain_messages(3) by (rule error_frame_last)
    qed
  qed
qed

text \<open>
  A POST whose body destructures is answered with status 200 and content type
  \<open>text/event-stream\<close>, without a JSON body, and the handler raises nothing; every
  failure (a missing or empty field, a field that cannot be converted to text, a
  connection failure, an upstream status that is not a success, a reply without a
  readable body, a read error in the middle of the stream) ends the stream with a frame
  \<open>data: {"error":"message"}\<close> and a blank line.
\<close>

lemma stream_errors_in_band:
  assumes "req_method req = ''POST''" and "destructures (req_body req)"
  shows \<open>snd (snd (stream_handler env req up)) = None
     \<and> status (fst (stream_handler env req up)) = 200
     \<and> headers (fst (stream_handler env req up)) ''Content-Type'' = Some ''text/event-stream''
     \<and> body (fst (stream_handler env req up)) = NoBody
     \<and> ended (fst (stream_handler env req up))
     \<and> ((\<not> truthy (topic req) \<or> \<not> truthy (audience req)
          \<or> template_throws (topic req) \<or> template_throws (audience req)
          \<or> up = ConnectFails
          \<or> (\<exists>st tr b. up = Reply st tr b
                \<and> (\<not> ok st \<or> b = None \<or> (\<exists>cs. b = Some (cs, ReadFails)))))
        \<longrightarrow> writes (fst (stream_handler env req up)) \<noteq> []
          \<and> (\<exists>m. last (writes (fst (stream_handler env req up)))
                    = ''data: {"error":"'' @ m @ ''"}'' @ [nl, nl]))\<close>
proof -
  consider (missing) "\<not> truthy (topic req) \<or> \<not> truthy (audience req)"
    | (unreadable) "truthy (topic req)" "truthy (audience req)"
        "template_throws (topic req) \<or> template_throws (audience req)"
    | (relay) "truthy (topic req)" "truthy (audience req)"
        "\<not> template_throws (topic req)" "\<not> template_throws (audience req)"
    by blast
  then show ?thesis
  proof cases
    case missing
    then have eq: "stream_handler env req up
        = (finish_with [sse_json_error ''Missing required fields''] sse_res, [], None)"
      using assms by (simp add: stream_handler_def)
    have "writes (finish_with [sse_json_error ''Missing required fields''] sse_res)
        = [] @ [sse_json_error ''Missing required fields'']"
      by (simp add: finish_with_simps sse_res_shape)
    from error_frame_last [OF this plain_messages(1)] show ?thesis
      unfolding eq by (simp add: finish_with_simps sse_res_shape)
  next
    case unreadable
    then have eq: "stream_handler env req up
        = (finish_with [sse_json_error ''Failed to connect to backend''] sse_res, [], None)"
      using assms by (simp add: stream_handler_def)
    have "writes (finish_with [sse_json_error ''Failed to connect to backend''] sse_res)
        = [] @ [sse_json_error ''Failed to connect to backend'']"
      by (simp add: finish_with_simps sse_res_shape)
    from error_frame_last [OF this plain_messages(2)] show ?thesis
      unfolding eq by (simp add: finish_with_simps sse_res_shape)
  next
    case relay
    then have eq: "stream_handler env req up = (relay_reply up sse_res, [stream_url env], None)"
      using assms by (simp add: stream_handler_def)
    from relay relay_reply_failure [of up] show ?thesis
      unfolding eq by (simp add: relay_reply_shape sse_res_shape)
  qed
qed

text \<open>
  Claim C10 at a POST whose JSON body is \<open>null\<close>. The destructuring of \<open>req.body\<close>
  stands before every \<open>try\<close>: the handler raises a TypeError out of itself, with no
  frame written and the response not ended, whatever the upstream would have sent.
  The reply is the framework's, not an event stream with an error frame.
\<close>

theorem null_body_leaves_the_stream_handler:
  "stream_handler None \<lparr>req_method = ''POST'', req_body = Some JNull\<rparr>
       (Reply 200 False (Some ([], Done)))
     = (sse_res, [], Some CannotDestructure)
   \<and> writes sse_res = [] \<and> \<not> ended sse_res"
  by (simp add: stream_handler_def destructures_def sse_res_shape sse_res_open)

theorem null_body_leaves_the_stream_handler_witness:
  "snd (snd (stream_handler None \<lparr>req_method = ''POST'', req_body = Some JNull\<rparr>
       (Reply 200 False (Some ([], Done))))) \<noteq> None"
  using null_body_leaves_the_stream_handler by simp

subsection \<open>Invalid input\<close>

text \<open>
  For a body that destructures, both entry points fail fast and fetch nothing: a
  streaming request in which \<open>topic\<close> or \<open>audience\<close> is missing or empty is answered
  with the single frame \<open>data: {"error":"Missing required fields"}\<close> and ended, and a
  search request whose \<open>query\<close> is missing or empty is answered with status 400 and the
  error \<open>Missing search query\<close>.
\<close>

lemma invalid_input_fails_fast:
  assumes "req_method sreq = ''POST''" and "destructures (req_body sreq)"
      and "\<not> truthy (topic sreq) \<or> \<not> truthy (audience sreq)"
      and "req_method qreq = ''POST''" and "destructures (req_body qreq)"
      and "\<not> truthy (query qreq)"
  shows \<open>writes (fst (stream_handler env sreq up))
           = [''data: {"error":"Missing required fields"}'' @ [nl, nl]]
       \<and> ended (fst (stream_handler env sreq up))
       \<and> snd (stream_handler env sreq up) = ([], None)
       \<and> status (fst (search_handler message_of mcp qreq net)) = 400
       \<and> body (fst (search_handler message_of mcp qreq net))
            = JsonBody (JObj [(''error'', JStr ''Missing search query'')])
       \<and> snd (search_handler message_of mcp qreq net) = []\<close>
proof -
  have "stream_handler env sreq up
      = (finish_with [sse_json_error ''Missing required fields''] sse_res, [], None)"
    using assms(1-3) by (simp add: stream_handler_def)
  moreover have "search_handler message_of mcp qreq net
      = (send_json (JObj [(''error'', JStr ''Missing search query'')]) (set_status 400 res0), [])"
    using assms(4-6) by (simp add: search_handler_def)
  ultimately show ?thesis
    by (simp add: finish_with_simps sse_res_shape send_json_def set_status_def setHeader_def
        sse_json_error_plain [OF plain_messages(1)])
qed

lemma search_null_body_reply:
  "search_handler message_of env \<lparr>req_method = ''POST'', req_body = Some JNull\<rparr> net
     = (failure_reply env (message_of CannotDestructure), [])"
  by (simp add: search_handler_def destructures_def)

text \<open>
  Claim C6 at a request whose JSON body is \<open>null\<close>, in which \<open>topic\<close>,
  \<open>audience\<close> and \<open>query\<close> are missing. Nothing is fetched, but the streaming handler
  writes no error frame: the TypeError of the destructuring leaves the handler. The
  search handler, which destructures inside its \<open>try\<close>, answers with status 500 and
  the payload of its \<open>catch\<close>, not with the status 400 of a missing query.
\<close>

theorem null_body_gets_no_error_frame:
  "writes (fst (stream_handler None \<lparr>req_method = ''POST'', req_body = Some JNull\<rparr> ConnectFails))
     = []
   \<and> snd (stream_handler None \<lparr>req_method = ''POST'', req_body = Some JNull\<rparr> ConnectFails)
     = ([], Some CannotDestructure)
   \<and> status (fst (search_handler engine_words None
        \<lparr>req_method = ''POST'', req_body = Some JNull\<rparr> refusing_net)) = 500
   \<and> snd (search_handler engine_words None
        \<lparr>req_method = ''POST'', req_body = Some JNull\<rparr> refusing_net) = []"
  by (simp add: stream_handler_def search_handler_def destructures_def sse_res_shape
      failure_reply_def send_json_def set_status_def setHeader_def res0_def)

theorem null_body_gets_no_error_frame_witness:
  \<open>writes (fst (stream_handler None \<lparr>req_method = ''POST'', req_body = Some JNull\<rparr> ConnectFails))
     \<noteq> [''data: {"error":"Missing required fields"}'' @ [nl, nl]]\<close>
  using null_body_gets_no_error_frame by simp

section \<open>Properties of the search resolver\<close>

subsection \<open>One attempt, one step of the loop\<close>

lemma attempt_success_ex:
  assumes "succeeds r"
  shows "\<exists>st d. r = Responds st (Inr d) \<and> ok st \<and> tool_attempt r = Some d
            \<and> prompt_attempt r = Inr d"
proof (cases r)
  case (Rejects msg)
  with assms show ?thesis by (simp add: succeeds_def)
next
  case (Responds st b)
  with assms show ?thesis
    by (cases b) (simp_all add: succeeds_def tool_attempt_def prompt_attempt_def)
qed

lemma attempt_failure_ex:
  assumes "\<not> succeeds r"
  shows "tool_attempt r = None \<and> (\<exists>m. prompt_attempt r = Inl m)"
proof (cases r)
  case (Rejects msg)
  then show ?thesis by (simp add: tool_attempt_def prompt_attempt_def)
next
  case (Responds st b)
  with assms show ?thesis
    by (cases b) (simp_all add: succeeds_def tool_attempt_def prompt_attempt_def)
qed

lemma attempt_success:
  assumes "succeeds r"
  obtains st d where "r = Responds st (Inr d)" "ok st" "tool_attempt r = Some d"
    "prompt_attempt r = Inr d"
  using attempt_success_ex [OF assms] by blast

lemma attempt_failure:
  assumes "\<not> succeeds r"
  obtains m where "tool_attempt r = None" "prompt_attempt r = Inl m"
  using attempt_failure_ex [OF assms] by blast

lemma try_urls_tool:
  "tool_attempt (net (u @ ''/api/tool'')) = Some d
    \<Longrightarrow> try_urls net (u # us) lastError = (Found d, [u @ ''/api/tool''])"
  by simp

lemma try_urls_prompt:
  "tool_attempt (net (u @ ''/api/tool'')) = None
    \<Longrightarrow> prompt_attempt (net (u @ ''/api/prompt'')) = Inr d
    \<Longrightarrow> try_urls net (u # us) lastError = (Found d, [u @ ''/api/tool'', u @ ''/api/prompt''])"
  by simp

lemma try_urls_next:
  "tool_attempt (net (u @ ''/api/tool'')) = None
    \<Longrightarrow> prompt_attempt (net (u @ ''/api/prompt'')) = Inl m
    \<Longrightarrow> try_urls net (u # us) lastError
        = (fst (try_urls net us (Some m)),
           (u @ ''/api/tool'') # (u @ ''/api/prompt'') # snd (try_urls net us (Some m)))"
  by (simp split: prod.splits)

lemma candidates_Cons:
  "candidates (u # us) = (u @ ''/api/tool'') # (u @ ''/api/prompt'') # candidates us"
  by (simp add: candidates_def endpoints_def)

lemma candidates_Nil: "candidates [] = []"
  by (simp add: candidates_def)

lemma try_urls_trace:
  "snd (try_urls net urls lastError)
     = takeWhile (\<lambda>u. \<not> succeeds (net u)) (candidates urls)
         @ take 1 (dropWhile (\<lambda>u. \<not> succeeds (net u)) (candidates urls))"
proof (induction urls arbitrary: lastError)
  case Nil
  show ?case by (simp add: candidates_Nil)
next
  case (Cons u us)
  show ?case
  proof (cases "succeeds (net (u @ ''/api/tool''))")
    case True
    then obtain d where t: "tool_attempt (net (u @ ''/api/tool'')) = Some d"
      by (rule attempt_success)
    from True show ?thesis
      by (simp add: try_urls_tool [of net u d us lastError, OF t] candidates_Cons
          del: try_urls.simps)
  next
    case f: False
    then obtain m0 where t: "tool_attempt (net (u @ ''/api/tool'')) = None"
      by (rule attempt_failure)
    show ?thesis
    proof (cases "succeeds (net (u @ ''/api/prompt''))")
      case True
      then obtain d where p: "prompt_attempt (net (u @ ''/api/prompt'')) = Inr d"
        by (rule attempt_success)
      from f True show ?thesis
        by (simp add: try_urls_prompt [of net u d us lastError, OF t p] candidates_Cons
            del: try_urls.simps)
    next
      case False
      then obtain m where p: "prompt_attempt (net (u @ ''/api/prompt'')) = Inl m"
        by (rule attempt_failure)
      from f False Cons.IH [of "Some m"] show ?thesis
        by (simp add: try_urls_next [of net u m us lastError, OF t p] candidates_Cons
            del: try_urls.simps)
    qed
  qed
qed

lemma try_urls_found:
  assumes "dropWhile (\<lambda>u. \<not> succeeds (net u)) (candidates urls) = v # later"
  shows "\<exists>st data. net v = Responds st (Inr data) \<and> ok st
            \<and> fst (try_urls net urls lastError) = Found data"
  using assms
proof (induction urls arbitrary: lastError)
  case Nil
  then show ?case by (simp add: candidates_Nil)
next
  case (Cons u us)
  show ?case
  proof (cases "succeeds (net (u @ ''/api/tool''))")
    case True
    with Cons.prems have v: "v = u @ ''/api/tool''"
      by (simp add: candidates_Cons)
    from True obtain st d where "net (u @ ''/api/tool'') = Responds st (Inr d)" "ok st"
      "tool_attempt (net (u @ ''/api/tool'')) = Some d"
      by (rule attempt_success)
    then show ?thesis
      unfolding v using try_urls_tool [of net u d us lastError] by simp
  next
    case f: False
    then obtain m0 where t: "tool_attempt (net (u @ ''/api/tool'')) = None"
      by (rule attempt_failure)
    show ?thesis
    proof (cases "succeeds (net (u @ ''/api/prompt''))")
      case True
      with Cons.prems f have v: "v = u @ ''/api/prompt''"
        by (simp add: candidates_Cons)
      from True obtain st d where "net (u @ ''/api/prompt'') = Responds st (Inr d)" "ok st"
        "prompt_attempt (net (u @ ''/api/prompt'')) = Inr d"
        by (rule attempt_success)
      then show ?thesis
        unfolding v using try_urls_prompt [of net u d us lastError, OF t] by simp
    next
      case False
      then obtain m where p: "prompt_attempt (net (u @ ''/api/prompt'')) = Inl m"
        by (rule attempt_failure)
      from Cons.prems f False
      have "dropWhile (\<lambda>u. \<not> succeeds (net u)) (candidates us) = v # later"
        by (simp add: candidates_Cons)
      from Cons.IH [OF this, of "Some m"] show ?thesis
        by (simp add: try_urls_next [of net u m us lastError, OF t p] del: try_urls.simps)
    qed
  qed
qed

lemma try_urls_exhausted:
  assumes "list_all (\<lambda>u. \<not> succeeds (net u)) (candidates urls)"
  shows "\<exists>m. fst (try_urls net urls lastError) = Exhausted m"
  using assms
proof (induction urls arbitrary: lastError)
  case Nil
  then show ?case by simp
next
  case (Cons u us)
  then have f: "\<not> succeeds (net (u @ ''/api/tool''))" "\<not> succeeds (net (u @ ''/api/prompt''))"
    and rest: "list_all (\<lambda>u. \<not> succeeds (net u)) (candidates us)"
    by (simp_all add: candidates_Cons)
  from f(1) obtain m0 where t: "tool_attempt (net (u @ ''/api/tool'')) = None"
    by (rule attempt_failure)
  from f(2) obtain m where p: "prompt_attempt (net (u @ ''/api/prompt'')) = Inl m"
    by (rule attempt_failure)
  from Cons.IH [OF rest, of "Some m"] show ?case
    by (simp add: try_urls_next [of net u m us lastError, OF t p] del: try_urls.simps)
qed

subsection \<open>Order of the attempts\<close>

lemma resolution_order:
  "snd (try_urls net urls lastError)
     = takeWhile (\<lambda>u. \<not> succeeds (net u)) (candidates urls)
         @ take 1 (dropWhile (\<lambda>u. \<not> succeeds (net u)) (candidates urls))
   \<and> (case dropWhile (\<lambda>u. \<not> succeeds (net u)) (candidates urls) of
         [] \<Rightarrow> \<exists>m. fst (try_urls net urls lastError) = Exhausted m
       | u # later \<Rightarrow>
           \<exists>st data. net u = Responds st (Inr data) \<and> ok st
              \<and> fst (try_urls net urls lastError) = Found data)"
proof (cases "dropWhile (\<lambda>u. \<not> succeeds (net u)) (candidates urls)")
  case Nil
  then have "list_all (\<lambda>u. \<not> succeeds (net u)) (candidates urls)"
    by (simp add: list_all_iff)
  from try_urls_exhausted [OF this] try_urls_trace [of net urls lastError] show ?thesis
    unfolding Nil by simp
next
  case (Cons v later)
  from try_urls_found [OF this] try_urls_trace [of net urls lastError] show ?thesis
    unfolding Cons by simp
qed

lemma search_handler_resolves:
  assumes "req_method req = ''POST''" and "destructures (req_body req)" and "truthy (query req)"
      and "\<not> template_throws (query req)" and "\<not> template_throws (recency req)"
  shows "search_handler message_of env req net =
           (case try_urls net (urlsToTry env) None of
              (Found data, fetched) \<Rightarrow> (send_json data (set_status 200 res0), fetched)
            | (Exhausted lastError, fetched) \<Rightarrow>
                (failure_reply env (exhausted_message lastError), fetched))"
  using assms by (simp add: search_handler_def)

lemma send_json_shape:
  "status (send_json v (set_status n res0)) = n"
  "body (send_json v (set_status n res0)) = JsonBody v"
  by (simp_all add: send_json_def set_status_def setHeader_def res0_def)

lemma failure_reply_shape:
  "status (failure_reply env msg) = 500"
  "body (failure_reply env msg)
     = JsonBody (JObj [(''error'', JStr (''Failed to search with Perplexity: '' @ msg)),
                       (''mock'', JBool True),
                       (''answer'', JStr (troubleshooting env msg))])"
  by (simp_all add: failure_reply_def send_json_def set_status_def setHeader_def res0_def)

text \<open>
  Claim C5, as the code has it. An attempt succeeds when its status is a success and
  its body parses as JSON; a success status with a body that does not parse is a failure
  like any other. The resolver walks the candidates in the order of the list, the tool
  endpoint of an address before its prompt endpoint: the URLs it fetches are the
  candidates up to and including the first one whose attempt succeeds, so that the prompt
  endpoint of an address is fetched only after its tool endpoint has failed and nothing
  is fetched after a success. The payload of that first successful attempt is the
  result of the resolution, and the handler answers a valid request with status 200 and
  that payload as its body; when no candidate succeeds every candidate has been fetched
  and the handler answers with status 500.
\<close>

theorem first_success_short_circuits:
  assumes "req_method req = ''POST''" and "destructures (req_body req)" and "truthy (query req)"
      and "\<not> template_throws (query req)" and "\<not> template_throws (recency req)"
  shows "snd (try_urls net urls lastError)
     = takeWhile (\<lambda>u. \<not> succeeds (net u)) (candidates urls)
         @ take 1 (dropWhile (\<lambda>u. \<not> succeeds (net u)) (candidates urls))
   \<and> (case dropWhile (\<lambda>u. \<not> succeeds (net u)) (candidates urls) of
         [] \<Rightarrow> \<exists>m. fst (try_urls net urls lastError) = Exhausted m
       | u # later \<Rightarrow>
           \<exists>st data. net u = Responds st (Inr data) \<and> ok st
              \<and> fst (try_urls net urls lastError) = Found data)
   \<and> snd (search_handler message_of env req net)
     = takeWhile (\<lambda>u. \<not> succeeds (net u)) (candidates (urlsToTry env))
         @ take 1 (dropWhile (\<lambda>u. \<not> succeeds (net u)) (candidates (urlsToTry env)))
   \<and> (case dropWhile (\<lambda>u. \<not> succeeds (net u)) (candidates (urlsToTry env)) of
         [] \<Rightarrow> status (fst (search_handler message_of env req net)) = 500
       | u # later \<Rightarrow>
           \<exists>st data. net u = Responds st (Inr data) \<and> ok st
              \<and> status (fst (search_handler message_of env req net)) = 200
              \<and> body (fst (search_handler message_of env req net)) = JsonBody data)"
proof -
  let ?H = "search_handler message_of env req net"
  let ?R = "try_urls net (urlsToTry env) None"
  let ?D = "dropWhile (\<lambda>u. \<not> succeeds (net u)) (candidates (urlsToTry env))"
  note h = search_handler_resolves [OF assms, of message_of env net]
  note o = resolution_order [of net "urlsToTry env" None]
  have fetched: "snd ?H = snd ?R"
    unfolding h by (cases ?R; cases "fst ?R") simp_all
  have reply: "case ?D of
         [] \<Rightarrow> status (fst ?H) = 500
       | u # later \<Rightarrow>
           \<exists>st data. net u = Responds st (Inr data) \<and> ok st
              \<and> status (fst ?H) = 200 \<and> body (fst ?H) = JsonBody data"
  proof (cases ?D)
    case Nil
    with o obtain m where "fst ?R = Exhausted m"
      by auto
    then have "fst ?H = failure_reply env (exhausted_message m)"
      unfolding h by (cases ?R) simp
    then show ?thesis
      unfolding Nil by (simp add: failure_reply_shape)
  next
    case (Cons v later)
    with o obtain st data where d: "net v = Responds st (Inr data)" "ok st" "fst ?R = Found data"
      by auto
    then have "fst ?H = send_json data (set_status 200 res0)"
      unfolding h by (cases ?R) simp
    with d show ?thesis
      unfolding Cons by (simp add: send_json_shape)
  qed
  from fetched o reply resolution_order [of net urls lastError] show ?thesis
    by simp
qed

theorem first_success_short_circuits_witness:
  "try_urls (only_net ''http://b/api/tool'' (JStr ''found'')) [''http://a'', ''http://b'', ''http://c''] None
     = (Found (JStr ''found''), [''http://a/api/tool'', ''http://a/api/prompt'', ''http://b/api/tool''])
   \<and> snd (search_handler engine_words None
        \<lparr>req_method = ''POST'', req_body = Some (JObj [(''query'', JStr ''tv'')])\<rparr>
        (only_net ''http://perplexity:3500/api/tool'' (JStr ''found'')))
     = [''http://shopai-perplexity:3500/api/tool'', ''http://shopai-perplexity:3500/api/prompt'',
        ''http://perplexity:3500/api/tool'']
   \<and> body (fst (search_handler engine_words None
        \<lparr>req_method = ''POST'', req_body = Some (JObj [(''query'', JStr ''tv'')])\<rparr>
        (only_net ''http://perplexity:3500/api/tool'' (JStr ''found''))))
     = JsonBody (JStr ''found'')"
proof -
  let ?net = "only_net ''http://b/api/tool'' (JStr ''found'')"
  let ?net' = "only_net ''http://perplexity:3500/api/tool'' (JStr ''found'')"
  let ?urls = "[''http://a'', ''http://b'', ''http://c'']"
  let ?req = "\<lparr>req_method = ''POST'', req_body = Some (JObj [(''query'', JStr ''tv'')])\<rparr>"
  have h: "req_method ?req = ''POST''" "destructures (req_body ?req)" "truthy (query ?req)"
    "\<not> template_throws (query ?req)" "\<not> template_throws (recency ?req)"
    by (simp_all add: request_defs)
  have c: "candidates ?urls = [''http://a/api/tool'', ''http://a/api/prompt'', ''http://b/api/tool'',
     ''http://b/api/prompt'', ''http://c/api/tool'', ''http://c/api/prompt'']"
    by (simp add: candidates_def endpoints_def)
  have c': "candidates (urlsToTry None)
     = [''http://shopai-perplexity:3500/api/tool'', ''http://shopai-perplexity:3500/api/prompt'',
        ''http://perplexity:3500/api/tool'', ''http://perplexity:3500/api/prompt'',
        ''http://localhost:3500/api/tool'', ''http://localhost:3500/api/prompt'']"
    by (simp add: candidates_def endpoints_def urlsToTry_def)
  have "snd (try_urls ?net ?urls None) = [''http://a/api/tool'', ''http://a/api/prompt'', ''http://b/api/tool'']
     \<and> fst (try_urls ?net ?urls None) = Found (JStr ''found'')"
    using first_success_short_circuits [OF h, of ?net ?urls None engine_words None]
    unfolding c by (simp add: only_net_def succeeds_def ok_def)
  moreover have "snd (search_handler engine_words None ?req ?net')
       = [''http://shopai-perplexity:3500/api/tool'', ''http://shopai-perplexity:3500/api/prompt'',
          ''http://perplexity:3500/api/tool'']
     \<and> body (fst (search_handler engine_words None ?req ?net')) = JsonBody (JStr ''found'')"
    using first_success_short_circuits [OF h, of ?net' "[]" None engine_words None]
    unfolding c' by (simp add: only_net_def succeeds_def ok_def)
  ultimately show ?thesis
    by (simp add: prod_eq_iff)
qed

text \<open>
  Claim C5 as stated, with success decided by the status alone, fails: on a network
  where every URL answers 200 and only the prompt endpoint of the second address sends a
  body that parses, the very first attempt has a success status, yet the resolver goes
  on to three more candidates and returns the payload of the fourth.
\<close>

theorem success_status_alone_counterexample:
  "status_ok (unparsable_net ''http://perplexity:3500/api/prompt'' (JStr ''found'')
       ''http://shopai-perplexity:3500/api/tool'')
   \<and> snd (search_handler engine_words None
        \<lparr>req_method = ''POST'', req_body = Some (JObj [(''query'', JStr ''tv'')])\<rparr>
        (unparsable_net ''http://perplexity:3500/api/prompt'' (JStr ''found'')))
     = [''http://shopai-perplexity:3500/api/tool'', ''http://shopai-perplexity:3500/api/prompt'',
        ''http://perplexity:3500/api/tool'', ''http://perplexity:3500/api/prompt'']
   \<and> body (fst (search_handler engine_words None
        \<lparr>req_method = ''POST'', req_body = Some (JObj [(''query'', JStr ''tv'')])\<rparr>
        (unparsable_net ''http://perplexity:3500/api/prompt'' (JStr ''found''))))
     = JsonBody (JStr ''found'')"
  by (simp add: status_ok_def unparsable_net_def ok_def search_handler_def request_defs
      urlsToTry_def tool_attempt_def prompt_attempt_def send_json_shape)

subsection \<open>Total failure\<close>

lemma try_urls_all_fail:
  assumes "urls \<noteq> []" and "all_fail net urls"
  shows "\<exists>m. prompt_attempt (net (last urls @ ''/api/prompt'')) = Inl m
           \<and> try_urls net urls lastError = (Exhausted (Some m), candidates urls)"
  using assms
proof (induction urls arbitrary: lastError)
  case Nil
  then show ?case by simp
next
  case (Cons u us)
  then have f: "\<not> succeeds (net (u @ ''/api/tool''))" "\<not> succeeds (net (u @ ''/api/prompt''))"
    and rest: "all_fail net us"
    by (simp_all add: all_fail_def candidates_Cons)
  from f(1) obtain m0 where t: "tool_attempt (net (u @ ''/api/tool'')) = None"
    by (rule attempt_failure)
  from f(2) obtain m where p: "prompt_attempt (net (u @ ''/api/prompt'')) = Inl m"
    by (rule attempt_failure)
  note step = try_urls_next [of net u m us lastError, OF t p]
  show ?case
  proof (cases "us = []")
    case True
    with p show ?thesis
      unfolding step by (simp add: candidates_Cons candidates_Nil)
  next
    case False
    from Cons.IH [OF False rest, of "Some m"] False show ?thesis
      unfolding step by (auto simp: candidates_Cons)
  qed
qed

lemma urlsToTry_last: "urlsToTry env \<noteq> [] \<and> last (urlsToTry env) = ''http://localhost:3500''"
  by (simp add: urlsToTry_def)

lemma refusing_net_all_fail: "all_fail refusing_net urls"
  by (simp add: all_fail_def refusing_net_def succeeds_def list_all_iff)

text \<open>
  Claim C4, as the code has it. When every candidate fails, the resolution carries one
  failure description only, that of the last attempt (the prompt endpoint of the last
  address), however many candidates were fetched; the failures before it are logged and
  dropped. All the candidates have been fetched, in order.
\<close>

theorem exhausted_keeps_last_failure_only:
  assumes "urls \<noteq> []" and "all_fail net urls"
  shows "\<exists>m. prompt_attempt (net (last urls @ ''/api/prompt'')) = Inl m
           \<and> failure_entries (fst (try_urls net urls lastError)) = [m]
           \<and> snd (try_urls net urls lastError) = candidates urls"
  using try_urls_all_fail [OF assms, of lastError]
  by (auto simp: failure_entries_def)

theorem exhausted_keeps_last_failure_only_witness:
  "failure_entries (fst (try_urls refusing_net [''http://a'', ''http://b''] None))
     = [''connect ECONNREFUSED http://b/api/prompt'']
   \<and> snd (try_urls refusing_net [''http://a'', ''http://b''] None)
     = [''http://a/api/tool'', ''http://a/api/prompt'', ''http://b/api/tool'', ''http://b/api/prompt'']"
proof -
  have ne: "[''http://a'', ''http://b''] \<noteq> []" by simp
  have af: "all_fail refusing_net [''http://a'', ''http://b'']"
    by (rule refusing_net_all_fail)
  show ?thesis
    using exhausted_keeps_last_failure_only [OF ne af, of None]
    by (simp add: prompt_attempt_def refusing_net_def candidates_def endpoints_def)
qed

text \<open>
  Claim C4 as stated (one entry for each attempted pair) fails: with the three
  configured addresses and a network that refuses every connection, six URLs are fetched
  and the resolution carries a single description.
\<close>

theorem one_entry_per_attempt_counterexample:
  "all_fail refusing_net (urlsToTry None)
   \<and> length (snd (try_urls refusing_net (urlsToTry None) None)) = 6
   \<and> failure_entries (fst (try_urls refusing_net (urlsToTry None) None))
       = [''connect ECONNREFUSED http://localhost:3500/api/prompt'']"
  by (simp add: refusing_net_all_fail urlsToTry_def refusing_net_def tool_attempt_def
      prompt_attempt_def failure_entries_def)

text \<open>
  When every candidate fails, the reply to a valid request has status 500 and a JSON
  body with the fields \<open>error\<close>, \<open>mock: true\<close> and \<open>answer\<close>, the answer being the
  troubleshooting text.
\<close>

lemma total_failure_reply:
  assumes "req_method req = ''POST''" and "destructures (req_body req)" and "truthy (query req)"
      and "\<not> template_throws (query req)" and "\<not> template_throws (recency req)"
      and "all_fail net (urlsToTry env)"
  shows "status (fst (search_handler message_of env req net)) = 500
       \<and> (\<exists>msg. body (fst (search_handler message_of env req net))
             = JsonBody (JObj [(''error'', JStr (''Failed to search with Perplexity: '' @ msg)),
                               (''mock'', JBool True),
                               (''answer'', JStr (troubleshooting env msg))]))"
proof -
  from try_urls_all_fail [of "urlsToTry env" net None] assms(6) urlsToTry_last [of env]
  obtain m where "try_urls net (urlsToTry env) None
      = (Exhausted (Some m), candidates (urlsToTry env))"
    by blast
  then have "fst (search_handler message_of env req net)
      = failure_reply env (exhausted_message (Some m))"
    unfolding search_handler_resolves [OF assms(1-5)] by simp
  then show ?thesis
    by (simp add: failure_reply_shape)
qed

text \<open>
  Claim C3 at a valid search request while every candidate refuses the connection. The
  handler builds the informational payload, \<open>mock: true\<close> with the troubleshooting
  answer, and sends it with status 500, not 200.
\<close>

theorem total_failure_answers_500:
  "all_fail refusing_net (urlsToTry None)
   \<and> status (fst (search_handler engine_words None
        \<lparr>req_method = ''POST'', req_body = Some (JObj [(''query'', JStr ''tv'')])\<rparr>
        refusing_net)) = 500
   \<and> body (fst (search_handler engine_words None
        \<lparr>req_method = ''POST'', req_body = Some (JObj [(''query'', JStr ''tv'')])\<rparr>
        refusing_net))
     = JsonBody (JObj
         [(''error'', JStr (''Failed to search with Perplexity: All connection attempts failed. ''
              @ ''Last error: connect ECONNREFUSED http://localhost:3500/api/prompt'')),
          (''mock'', JBool True),
          (''answer'', JStr (troubleshooting None (''All connection attempts failed. ''
              @ ''Last error: connect ECONNREFUSED http://localhost:3500/api/prompt'')))])"
  by (simp add: refusing_net_all_fail search_handler_def request_defs urlsToTry_def
      refusing_net_def tool_attempt_def prompt_attempt_def failure_reply_shape
      exhausted_message_def)

section \<open>Properties of the asset proxy\<close>

subsection \<open>Decimal rendering is injective\<close>

lemma digit_char_inj:
  assumes "a < 10" "b < 10" "char_of (48 + a) = char_of (48 + b)"
  shows "a = (b::nat)"
proof -
  from assms(3) have "(of_char (char_of (48 + a)) :: nat) = of_char (char_of (48 + b))"
    by simp
  with assms(1,2) show ?thesis
    by (simp add: of_char_of)
qed

lemma digit_char_not_amp:
  assumes "a < (10::nat)"
  shows "char_of (48 + a) \<noteq> CHR ''&''"
proof
  assume "char_of (48 + a) = CHR ''&''"
  then have "(of_char (char_of (48 + a)) :: nat) = of_char (CHR ''&'')"
    by simp
  with assms show False
    by (simp add: of_char_of)
qed

lemma dec_not_Nil: "dec n \<noteq> []"
  by (subst dec.simps) simp

lemma dec_amp: "CHR ''&'' \<notin> set (dec n)"
proof (induction n rule: dec.induct)
  case (1 n)
  show ?case
  proof (cases "n < 10")
    case True
    then show ?thesis
      using digit_char_not_amp [of n] by (subst dec.simps) auto
  next
    case False
    with "1.IH" show ?thesis
      using digit_char_not_amp [of "n mod 10"] by (subst dec.simps) auto
  qed
qed

lemma dec_inj: "dec a = dec b \<Longrightarrow> a = b"
proof (induction a arbitrary: b rule: dec.induct)
  case (1 n)
  show ?case
  proof (cases "n < 10")
    case True
    note n = this
    show ?thesis
    proof (cases "b < 10")
      case True
      with n "1.prems" have "char_of (48 + n) = char_of (48 + b)"
        by (simp add: dec.simps [of b] dec.simps [of n])
      with n True show ?thesis
        by (intro digit_char_inj)
    next
      case False
      with n "1.prems" have "[char_of (48 + n)] = dec (b div 10) @ [char_of (48 + b mod 10)]"
        by (simp add: dec.simps [of b] dec.simps [of n])
      then show ?thesis
        using dec_not_Nil [of "b div 10"] by simp
    qed
  next
    case False
    note n = this
    show ?thesis
    proof (cases "b < 10")
      case True
      with n "1.prems" have "dec (n div 10) @ [char_of (48 + n mod 10)] = [char_of (48 + b)]"
        by (simp add: dec.simps [of b] dec.simps [of n])
      then show ?thesis
        using dec_not_Nil [of "n div 10"] by simp
    next
      case False
      with n "1.prems" have "dec (n div 10) @ [char_of (48 + n mod 10)]
          = dec (b div 10) @ [char_of (48 + b mod 10)]"
        by (simp add: dec.simps [of b] dec.simps [of n])
      then have d: "dec (n div 10) = dec (b div 10)"
        and m: "char_of (48 + n mod 10) = char_of (48 + b mod 10)"
        by simp_all
      from "1.IH" [OF n d] have "n div 10 = b div 10" .
      moreover from m have "n mod 10 = b mod 10"
        by (intro digit_char_inj) simp_all
      ultimately show ?thesis
        by (metis div_mult_mod_eq)
    qed
  qed
qed

lemma cacheBustedUrl_eq_iff:
  "cacheBustedUrl env p now1 = cacheBustedUrl env p now2 \<longleftrightarrow> now1 = now2"
  by (auto simp: cacheBustedUrl_def dest: dec_inj)

lemma takeWhile_upto:
  "x \<notin> set xs \<Longrightarrow> takeWhile (\<lambda>c. c \<noteq> x) (xs @ x # ys) = xs"
  by (induction xs) auto

lemma append_Cons_unique:
  assumes "x \<notin> set xs" and "x \<notin> set xs'"
  shows "xs @ x # ys = xs' @ x # ys' \<longleftrightarrow> xs = xs' \<and> ys = ys'"
proof
  assume eq: "xs @ x # ys = xs' @ x # ys'"
  have "xs = takeWhile (\<lambda>c. c \<noteq> x) (xs @ x # ys)"
    using assms(1) by (simp add: takeWhile_upto)
  also have "\<dots> = takeWhile (\<lambda>c. c \<noteq> x) (xs' @ x # ys')"
    by (simp only: eq)
  also have "\<dots> = xs'"
    using assms(2) by (simp add: takeWhile_upto)
  finally have "xs = xs'" .
  with eq show "xs = xs' \<and> ys = ys'"
    by simp
qed simp

lemma cacheBuster_eq_iff:
  "cacheBuster now1 r1 = cacheBuster now2 r2 \<longleftrightarrow> now1 = now2 \<and> r1 = r2"
proof -
  have "dec now1 @ CHR ''&'' # (''r='' @ r1) = dec now2 @ CHR ''&'' # (''r='' @ r2)
      \<longleftrightarrow> dec now1 = dec now2 \<and> ''r='' @ r1 = ''r='' @ r2"
    by (rule append_Cons_unique) (rule dec_amp)+
  then show ?thesis
    by (auto simp: cacheBuster_def dest: dec_inj)
qed

subsection \<open>Cache-defeating tokens\<close>

text \<open>
  Claim C7, as the code has it. The token is the clock reading: two calls of the proxy
  for the same \<open>imagePath\<close> fetch different upstream URLs exactly when \<open>Date.now()\<close>
  gives different readings at the two calls; and two references built by the image
  generation route for the same asset differ exactly when the clock reading or the
  random text differs.
\<close>

theorem cache_tokens_differ_iff_inputs_differ:
  assumes "req_method req = ''GET'' \<or> req_method req = ''HEAD''"
      and "imagePath req = Some p" and "p \<noteq> []"
  shows "(snd (proxy_handler env now1 req up1) = snd (proxy_handler env now2 req up2)
            \<longleftrightarrow> now1 = now2)
       \<and> (proxyUrl image_url now1 r1 = proxyUrl image_url now2 r2 \<longleftrightarrow> now1 = now2 \<and> r1 = r2)"
proof -
  have "snd (proxy_handler env now req up) = [cacheBustedUrl env p now]" for now up
    using assms by (auto simp: proxy_handler_def)
  then show ?thesis
    by (simp add: cacheBustedUrl_eq_iff proxyUrl_def cacheBuster_eq_iff)
qed

theorem cache_tokens_differ_iff_inputs_differ_witness:
  "snd (proxy_handler None 1234 \<lparr>req_method = ''GET'', imagePath = Some ''/images/a.png''\<rparr>
          (ImageRejects ''timeout''))
     \<noteq> snd (proxy_handler None 1235 \<lparr>req_method = ''GET'', imagePath = Some ''/images/a.png''\<rparr>
          (ImageRejects ''timeout''))"
proof -
  let ?req = "\<lparr>req_method = ''GET'', imagePath = Some ''/images/a.png''\<rparr>"
  have h: "req_method ?req = ''GET'' \<or> req_method ?req = ''HEAD''"
    "imagePath ?req = Some ''/images/a.png''" "''/images/a.png'' \<noteq> []"
    by simp_all
  show ?thesis
    using cache_tokens_differ_iff_inputs_differ
      [OF h, of None 1234 "ImageRejects ''timeout''" 1235 "ImageRejects ''timeout''"]
    by simp
qed

text \<open>
  Claim C7 as stated (every pair of sequential calls carries different tokens) fails:
  two calls handled within the same millisecond, here at the reading 1234, fetch the
  same URL with the same token.
\<close>

theorem same_millisecond_same_token_counterexample:
  "snd (proxy_handler None 1234 \<lparr>req_method = ''GET'', imagePath = Some ''/images/a.png''\<rparr>
          (ImageRejects ''timeout''))
     = [''http://backend:8000/images/a.png?t=1234'']
   \<and> snd (proxy_handler None 1234 \<lparr>req_method = ''GET'', imagePath = Some ''/images/a.png''\<rparr>
          (ImageResponds 200 ''OK'' (Some ''image/png'') (Inr [])))
     = [''http://backend:8000/images/a.png?t=1234'']"
proof -
  have "cacheBustedUrl None ''/images/a.png'' 1234 = ''http://backend:8000/images/a.png?t=1234''"
    by code_simp
  then show ?thesis
    by (simp add: proxy_handler_def)
qed

subsection \<open>Validation and headers of the reply\<close>

lemma proxy_handler_fetches:
  assumes "req_method req = ''GET'' \<or> req_method req = ''HEAD''"
      and "imagePath req = Some p" and "p \<noteq> []"
  shows "fst (proxy_handler env now req up) = proxy_reply (req_method req) p up"
  using assms by (auto simp: proxy_handler_def)

text \<open>
  Claim C8. On a GET whose upstream fetch succeeds, a payload shorter than the threshold
  of 100 bytes is rejected with status 500 and the error \<open>Invalid image data received\<close>,
  whatever content type was declared; a payload of 100 bytes or more is sent with status
  200 under the declared content type, unchanged when there is one (\<open>image/png\<close> when
  it is absent or empty). A payload of 50 bytes is rejected, one of 10000 bytes declared
  \<open>image/png\<close> is sent as \<open>image/png\<close>.
\<close>

theorem validator_size_floor:
  assumes "req_method req = ''GET''" and "imagePath req = Some p" and "p \<noteq> []"
      and "ok st"
  shows "let r = fst (proxy_handler env now req
                        (ImageResponds st statusText contentType (Inr imageData)))
         in if length imageData < 100
            then status r = 500
               \<and> body r = JsonBody (JObj [(''error'', JStr ''Invalid image data received'')])
            else status r = 200 \<and> body r = RawBody imageData
               \<and> headers r ''Content-Type''
                    = Some (case contentType of
                              None \<Rightarrow> ''image/png''
                            | Some t \<Rightarrow> if t = [] then ''image/png'' else t)"
proof -
  have "fst (proxy_handler env now req (ImageResponds st statusText contentType (Inr imageData)))
      = proxy_reply ''GET'' p (ImageResponds st statusText contentType (Inr imageData))"
    using assms(1-3) proxy_handler_fetches [of req p env now] by simp
  then show ?thesis
    using assms(4)
    by (simp add: proxy_reply_def Let_def send_json_def send_raw_def set_status_def
        setHeader_def res0_def content_type_or_png_def env_or_def)
qed

theorem validator_size_floor_witness:
  "status (fst (proxy_handler None 1234
       \<lparr>req_method = ''GET'', imagePath = Some ''/images/a.png''\<rparr>
       (ImageResponds 200 ''OK'' (Some ''image/png'') (Inr (replicate 50 0))))) = 500
   \<and> body (fst (proxy_handler None 1234
       \<lparr>req_method = ''GET'', imagePath = Some ''/images/a.png''\<rparr>
       (ImageResponds 200 ''OK'' (Some ''image/png'') (Inr (replicate 10000 0)))))
       = RawBody (replicate 10000 0)
   \<and> headers (fst (proxy_handler None 1234
       \<lparr>req_method = ''GET'', imagePath = Some ''/images/a.png''\<rparr>
       (ImageResponds 200 ''OK'' (Some ''image/png'') (Inr (replicate 10000 0)))))
       ''Content-Type'' = Some ''image/png''"
proof -
  let ?req = "\<lparr>req_method = ''GET'', imagePath = Some ''/images/a.png''\<rparr>"
  have h: "req_method ?req = ''GET''" "imagePath ?req = Some ''/images/a.png''"
    "''/images/a.png'' \<noteq> []" "ok 200"
    by (simp_all add: ok_def)
  show ?thesis
    using validator_size_floor [OF h, of None 1234 "''OK''" "Some ''image/png''" "replicate 50 0"]
      validator_size_floor [OF h, of None 1234 "''OK''" "Some ''image/png''" "replicate 10000 0"]
    by (simp add: Let_def)
qed

text \<open>
  The successful reply to a GET carries the mirrored content type and the three
  cache-disabling headers.
\<close>

lemma get_reply_cache_headers:
  assumes "req_method req = ''GET''" and "imagePath req = Some p" and "p \<noteq> []"
      and "ok st" and "100 \<le> length imageData"
  shows "let r = fst (proxy_handler env now req
                        (ImageResponds st statusText contentType (Inr imageData)))
         in status r = 200
          \<and> headers r ''Content-Type'' = Some (content_type_or_png contentType)
          \<and> headers r ''Cache-Control'' = Some ''no-cache, no-store, must-revalidate''
          \<and> headers r ''Pragma'' = Some ''no-cache''
          \<and> headers r ''Expires'' = Some ''0''"
proof -
  have "fst (proxy_handler env now req (ImageResponds st statusText contentType (Inr imageData)))
      = proxy_reply ''GET'' p (ImageResponds st statusText contentType (Inr imageData))"
    using assms(1-3) proxy_handler_fetches [of req p env now] by simp
  then show ?thesis
    using assms(4,5)
    by (simp add: proxy_reply_def Let_def send_raw_def set_status_def setHeader_def res0_def)
qed

text \<open>
  Claim C9 at a HEAD request. The branch for HEAD returns before the cache-disabling
  headers are set: the successful reply carries the content type only, and no
  \<open>Cache-Control\<close>, \<open>Pragma\<close> or \<open>Expires\<close> header.
\<close>

theorem head_reply_lacks_cache_headers:
  "let r = fst (proxy_handler None 1234
                  \<lparr>req_method = ''HEAD'', imagePath = Some ''/images/a.png''\<rparr>
                  (ImageResponds 200 ''OK'' (Some ''image/png'') (Inr [])))
   in status r = 200 \<and> ended r
    \<and> headers r ''Content-Type'' = Some ''image/png''
    \<and> headers r ''Cache-Control'' = None
    \<and> headers r ''Pragma'' = None
    \<and> headers r ''Expires'' = None"
  by (simp add: proxy_handler_def proxy_reply_def ok_def Let_def end_response_def set_status_def
      setHeader_def res0_def content_type_or_png_def env_or_def)

section \<open>Frames and chunks in the relay\<close>

subsection \<open>A chunk made of whole frames\<close>











subsection \<open>A frame split across chunks\<close>

text \<open>
  Claim C1 at the relay. The read loop splits each chunk into lines on its own and
  carries nothing over to the next chunk. The frame \<open>data: {"chunk":"hi"}\<close> arriving
  in one chunk is forwarded whole; arriving split after \<open>data: {"chunk":\<close> it is
  forwarded truncated and its second half is dropped; arriving split after \<open>da\<close> it
  is not forwarded at all.
\<close>

theorem relay_loses_frame_split_across_chunks:
  \<open>writes (fst (stream_handler None
       \<lparr>req_method = ''POST'', req_body = Some (JObj [(''topic'', JStr ''tv''), (''audience'', JStr ''any'')])\<rparr>
       (Reply 200 False (Some ([''data: {"chunk":"hi"}'' @ [nl, nl]], Done)))))
     = [sse_data ''{"chunk":"hi"}'', sse_finished]
   \<and> writes (fst (stream_handler None
       \<lparr>req_method = ''POST'', req_body = Some (JObj [(''topic'', JStr ''tv''), (''audience'', JStr ''any'')])\<rparr>
       (Reply 200 False (Some ([''data: {"chunk":'', ''"hi"}'' @ [nl, nl]], Done)))))
     = [sse_data ''{"chunk":'', sse_finished]
   \<and> writes (fst (stream_handler None
       \<lparr>req_method = ''POST'', req_body = Some (JObj [(''topic'', JStr ''tv''), (''audience'', JStr ''any'')])\<rparr>
       (Reply 200 False (Some ([''da'', ''ta: {"chunk":"hi"}'' @ [nl, nl]], Done)))))
     = [sse_finished]\<close>
proof -
  have a: \<open>forward_chunk (''data: {"chunk":"hi"}'' @ [nl, nl]) = [sse_data ''{"chunk":"hi"}'']\<close>
    and b: \<open>forward_chunk ''data: {"chunk":'' = [sse_data ''{"chunk":'']\<close>
    and c: \<open>forward_chunk (''"hi"}'' @ [nl, nl]) = []\<close>
    and d: \<open>forward_chunk ''da'' = []\<close>
    and e: \<open>forward_chunk (''ta: {"chunk":"hi"}'' @ [nl, nl]) = []\<close>
    by (simp_all add: forward_chunk_def trim_empty_def js_space_def startsWith_def nl_def)
  then show ?thesis
    by (simp add: stream_handler_def request_defs relay_reply_def ok_def finish_with_simps
        sse_res_shape)
qed

text \<open>
  Hence the two deliveries of the same bytes are not decoded alike.
\<close>

theorem relay_loses_frame_split_across_chunks_witness:
  \<open>writes (fst (stream_handler None
       \<lparr>req_method = ''POST'', req_body = Some (JObj [(''topic'', JStr ''tv''), (''audience'', JStr ''any'')])\<rparr>
       (Reply 200 False (Some ([''data: {"chunk":'', ''"hi"}'' @ [nl, nl]], Done)))))
     \<noteq> writes (fst (stream_handler None
       \<lparr>req_method = ''POST'', req_body = Some (JObj [(''topic'', JStr ''tv''), (''audience'', JStr ''any'')])\<rparr>
       (Reply 200 False (Some ([''data: {"chunk":"hi"}'' @ [nl, nl]], Done)))))\<close>
  using relay_loses_frame_split_across_chunks
  by (simp add: sse_data_def)

subsection \<open>The page's decoder carries the incomplete message over\<close>

text \<open>
  The decoder of the streaming page keeps the piece after the last blank line in its
  buffer and prepends it to the next chunk. Splitting the text read so far gives the
  pieces already handled followed by the split of the buffer and the new chunk.
\<close>

lemma split_blank_not_Nil: "split_blank s \<noteq> []"
  by (induction s rule: split_blank.induct) (auto simp: neq_Nil_conv)

lemma cons_hd_not_Nil: "cons_hd c xs \<noteq> []"
  by (cases xs) simp_all

lemma split_blank_single: "split_blank s = [p] \<Longrightarrow> p = s"
proof (induction s arbitrary: p rule: split_blank.induct)
  case 1
  then show ?case by simp
next
  case (2 c)
  then show ?case by simp
next
  case (3 a b cs)
  show ?case
  proof (cases "a = nl \<and> b = nl")
    case True
    with "3.prems" show ?thesis
      using split_blank_not_Nil [of cs] by simp
  next
    case False
    obtain q qs where s: "split_blank (b # cs) = q # qs"
      using split_blank_not_Nil [of "b # cs"] by (cases "split_blank (b # cs)") auto
    with False "3.prems" have "qs = []" "p = a # q"
      by auto
    with s "3.IH"(2) [of q] False show ?thesis
      by auto
  qed
qed

lemma split_blank_append:
  "split_blank (a @ b) = butlast (split_blank a) @ split_blank (last (split_blank a) @ b)"
proof (induction a rule: split_blank.induct)
  case 1
  show ?case by simp
next
  case (2 c)
  show ?case by simp
next
  case (3 x y cs)
  show ?case
  proof (cases "x = nl \<and> y = nl")
    case True
    with "3.IH"(1) show ?thesis
      using split_blank_not_Nil [of cs] by simp
  next
    case False
    obtain q qs where s: "split_blank (y # cs) = q # qs"
      using split_blank_not_Nil [of "y # cs"] by (cases "split_blank (y # cs)") auto
    from False have l: "split_blank ((x # y # cs) @ b) = cons_hd x (split_blank ((y # cs) @ b))"
      by auto
    from False s have r: "split_blank (x # y # cs) = (x # q) # qs"
      by auto
    show ?thesis
    proof (cases "qs = []")
      case True
      with s have "q = y # cs"
        using split_blank_single [of "y # cs" q] by simp
      with True r l show ?thesis
        by simp
    next
      case qs: False
      from "3.IH"(2) [OF False] s qs
      have "split_blank ((y # cs) @ b) = q # butlast qs @ split_blank (last qs @ b)"
        by simp
      with l r qs show ?thesis
        by simp
    qed
  qed
qed

lemma handle_messages_append:
  "handle_messages parse (xs @ ys) st =
     (case handle_messages parse xs st of
        (st', True) \<Rightarrow> (st', True)
      | (st', False) \<Rightarrow> handle_messages parse ys st')"
  by (induction xs arbitrary: st) (auto split: prod.splits bool.splits)

lemma client_loop_merge:
  "client_loop parse (c1 # c2 # cs) buffer st = client_loop parse ((c1 @ c2) # cs) buffer st"
proof -
  let ?m1 = "split_blank (buffer @ c1)"
  let ?m2 = "split_blank (last ?m1 @ c2)"
  have m: "split_blank (buffer @ c1 @ c2) = butlast ?m1 @ ?m2"
    using split_blank_append [of "buffer @ c1" c2] by simp
  have b: "butlast (butlast ?m1 @ ?m2) = butlast ?m1 @ butlast ?m2"
    and l: "last (butlast ?m1 @ ?m2) = last ?m2"
    using split_blank_not_Nil [of "last ?m1 @ c2"] by (simp_all add: butlast_append)
  show ?thesis
    by (simp add: Let_def m b l handle_messages_append split: prod.splits bool.splits)
qed

lemma client_loop_concat:
  "client_loop parse (c # cs) buffer st = client_loop parse [concat (c # cs)] buffer st"
proof (induction cs arbitrary: c)
  case Nil
  show ?case by simp
next
  case (Cons c2 cs)
  have "client_loop parse (c # c2 # cs) buffer st = client_loop parse ((c @ c2) # cs) buffer st"
    by (rule client_loop_merge)
  also have "\<dots> = client_loop parse [concat ((c @ c2) # cs)] buffer st"
    by (rule Cons.IH)
  finally show ?case by simp
qed

text \<open>
  So the page ends in the same state whether the decoded text arrives in any number of
  chunks or in a single one: the independence of chunk boundaries that the relay lacks.
  (The chunks are the texts that \<open>decoder.decode(value)\<close> gives; the decoding of the
  bytes is not part of the model.)
\<close>

lemma client_decoder_chunk_independent:
  "read_stream parse chunks = read_stream parse [concat chunks]"
proof (cases chunks)
  case Nil
  then show ?thesis by (simp add: read_stream_def)
next
  case (Cons c cs)
  then show ?thesis
    unfolding read_stream_def by (simp only: client_loop_concat [of parse c cs])
qed

end
